theory Spec2Isabelle
  imports Complex_Main "HOL-Library.Sublist" "HOL-Library.Multiset"
begin

section \<open>Shared data model of \<open>pl_tools/canvas.py\<close>\<close>

text \<open>
  The script reads quiz records from a REST API as JSON and writes a question directory
  per quiz question plus one assessment descriptor. JSON objects whose fields the code
  reads are records here. A JSON number is a Python float, a finite binary64 value, and
  is held as the rational it denotes; where the code computes with such numbers (the
  numerical branch) the operations round as binary64 does, see \<open>round_double\<close> below.
  Python strings are \<open>string\<close>. Every exception the code can raise on the modelled
  paths is a value of \<open>py_error\<close>.
\<close>

datatype py_error = IndexError | KeyError | EOFError | HTTPError

record answer =
  answer_text :: string
  weight :: rat
  blank_id :: string
  numerical_answer_type :: string
  exact :: rat
  margin :: rat
  answer_start :: rat
  answer_end :: rat
  approximate :: rat
  precision :: rat

record question =
  question_id :: nat
  quiz_group_id :: "nat option"
  position :: int
  points_possible :: rat
  question_type :: string
  question_text :: string
  answers :: "answer list"

text \<open>The decimal text Python's \<open>str\<close> gives for an integer.\<close>

definition digit_char :: "nat \<Rightarrow> char" where
  "digit_char d = char_of (48 + d)"

function str_nat :: "nat \<Rightarrow> string" where
  "str_nat n = (if n < 10 then [digit_char n] else str_nat (n div 10) @ [digit_char (n mod 10)])"
  by pat_completeness auto
termination
  by (relation "measure (\<lambda>n. n)") auto

declare str_nat.simps [simp del]

definition str_int :: "int \<Rightarrow> string" where
  "str_int i = (if i < 0 then CHR ''-'' # str_nat (nat (- i)) else str_nat (nat i))"

text \<open>\<open>int(x)\<close> on a number: truncation toward zero.\<close>

definition py_int :: "rat \<Rightarrow> int" where
  "py_int x = (if 0 \<le> x then \<lfloor>x\<rfloor> else \<lceil>x\<rceil>)"

text \<open>
  Binary64 arithmetic. \<open>bit_length\<close> is the number of binary digits of a natural number
  (Python's \<open>int.bit_length\<close>), and \<open>binary_exponent x\<close> is the integer \<open>e\<close> with
  \<open>2 ^ e \<le> \<bar>x\<bar> < 2 ^ (e + 1)\<close>, for \<open>x\<close> other than 0. \<open>round_double\<close> rounds a rational to
  the nearest double, a tie to the even significand: the significand has 53 bits, so the
  spacing at \<open>x\<close> is \<open>2 ^ (e - 52)\<close>, and never below \<open>2 ^ (- 1074)\<close> (subnormal numbers).
  Magnitudes of \<open>2 ^ 1024\<close> and more, which Python turns into \<open>inf\<close>, are outside the model.

  Python's \<open>json\<close> reads a literal with a fraction or an exponent as \<open>round_double\<close> of its
  value. \<open>+\<close>, \<open>-\<close> and \<open>/\<close> on floats give \<open>round_double\<close> of the exact result, an \<open>int\<close>
  operand being converted first (\<open>float_of_int\<close>); \<open>abs\<close>, \<open>int\<close> and the comparisons are
  exact. An integer literal is read as an \<open>int\<close>; on integers below \<open>2 ^ 53\<close> in magnitude
  the expressions of the numerical branch have the same values in \<open>int\<close> and in float
  arithmetic.
\<close>

fun bit_length :: "nat \<Rightarrow> nat" where
  "bit_length n = (if n = 0 then 0 else Suc (bit_length (n div 2)))"

declare bit_length.simps [simp del]

definition binary_exponent :: "rat \<Rightarrow> int" where
  "binary_exponent x =
     (if 1 \<le> \<bar>x\<bar> then int (bit_length (nat \<lfloor>\<bar>x\<bar>\<rfloor>)) - 1
      else - int (bit_length (nat (\<lceil>1 / \<bar>x\<bar>\<rceil> - 1))))"

definition round_half_even :: "rat \<Rightarrow> int" where
  "round_half_even m =
     (let f = \<lfloor>m\<rfloor>; r = m - of_int f
      in if r < 1 / 2 then f else if 1 / 2 < r then f + 1 else if even f then f else f + 1)"

definition round_double :: "rat \<Rightarrow> rat" where
  "round_double x =
     (if x = 0 then 0
      else let q = max (binary_exponent x - 52) (- 1074)
           in sgn x * of_int (round_half_even (\<bar>x\<bar> / (2 powi q))) * (2 powi q))"

definition float_of_int :: "int \<Rightarrow> rat" where
  "float_of_int n = round_double (of_int n)"

definition float_add :: "rat \<Rightarrow> rat \<Rightarrow> rat" where
  "float_add x y = round_double (x + y)"

definition float_sub :: "rat \<Rightarrow> rat \<Rightarrow> rat" where
  "float_sub x y = round_double (x - y)"

definition float_div :: "rat \<Rightarrow> rat \<Rightarrow> rat" where
  "float_div x y = round_double (x / y)"

text \<open>
  \<open>input(prompt)\<close>: the operator's replies are the lines of standard input, consumed in
  order; reading past the last line raises \<open>EOFError\<close>.
\<close>

definition py_input :: "string list \<Rightarrow> py_error + (string \<times> string list)" where
  "py_input stdin = (case stdin of [] \<Rightarrow> Inl EOFError | line # rest \<Rightarrow> Inr (line, rest))"

section \<open>Question-type renderer: the numerical branch (lines 442-468 of \<open>main\<close>)\<close>

text \<open>
  The branch picks one of four input elements from the first answer and writes it into
  \<open>question.html\<close>. \<open>numerical_input\<close> is the choice made by the \<open>if\<close>/\<open>elif\<close> chain;
  \<open>numeric_input_markup\<close> is the f-string of the chosen branch. The f-strings format JSON
  numbers with Python's \<open>str\<close>; that conversion is the parameter \<open>fmt\<close>. \<open>int(...)\<close>
  results are formatted by \<open>str_int\<close>. The last branch blocks on \<open>input\<close> before writing.
  The literal \<open>0.001\<close> of line 446 is the double nearest to 1/1000, and the literal \<open>2\<close> of
  line 457 is converted to the float 2.
\<close>

datatype numeric_input =
    IntegerInput int
  | NumberInputAtol rat rat
  | NumberInputSigfig rat rat
  | NumberInputBare

definition numerical_input :: "answer \<Rightarrow> numeric_input" where
  "numerical_input answer =
     (if numerical_answer_type answer = ''exact_answer''
         \<and> \<bar>float_sub (exact answer) (float_of_int (py_int (exact answer)))\<bar>
               < round_double (1 / 1000)
         \<and> margin answer = 0
      then IntegerInput (py_int (exact answer))
      else if numerical_answer_type answer = ''exact_answer''
      then NumberInputAtol (exact answer) (margin answer)
      else if numerical_answer_type answer = ''range_answer''
      then (let average = float_div (float_add (answer_end answer) (answer_start answer))
                            (float_of_int 2);
                margin' = \<bar>float_sub (answer_end answer) average\<bar>
            in NumberInputAtol average margin')
      else if numerical_answer_type answer = ''precision_answer''
      then NumberInputSigfig (approximate answer) (precision answer)
      else NumberInputBare)"

fun numeric_input_markup :: "(rat \<Rightarrow> string) \<Rightarrow> numeric_input \<Rightarrow> string" where
  \<open>numeric_input_markup fmt (IntegerInput n) =
     ''<pl-integer-input answers-name="value" correct-answer="'' @ str_int n
       @ ''"></pl-integer-input>\<newline>''\<close>
| \<open>numeric_input_markup fmt (NumberInputAtol v tol) =
     ''<pl-number-input answers-name="value" correct-answer="'' @ fmt v @ ''" atol="'' @ fmt tol
       @ ''"></pl-number-input>\<newline>''\<close>
| \<open>numeric_input_markup fmt (NumberInputSigfig v digits) =
     ''<pl-number-input answers-name="value" correct-answer="'' @ fmt v
       @ ''" comparison="sigfig" digits="'' @ fmt digits @ ''"></pl-number-input>\<newline>''\<close>
| \<open>numeric_input_markup fmt NumberInputBare =
     ''<pl-number-input answers-name="value"></pl-number-input>\<newline>''\<close>

definition numerical_markup ::
  "(rat \<Rightarrow> string) \<Rightarrow> answer list \<Rightarrow> string list \<Rightarrow> py_error + (string \<times> string list)" where
  "numerical_markup fmt answers_of_q stdin =
     (case answers_of_q of
        [] \<Rightarrow> Inl IndexError
      | answer # _ \<Rightarrow>
          (case numerical_input answer of
             NumberInputBare \<Rightarrow>
               (case py_input stdin of
                  Inl e \<Rightarrow> Inl e
                | Inr (_, rest) \<Rightarrow> Inr (numeric_input_markup fmt NumberInputBare, rest))
           | chosen \<Rightarrow> Inr (numeric_input_markup fmt chosen, stdin)))"

section \<open>Question-type renderer: blanks (lines 482-493 and 505-522 of \<open>main\<close>)\<close>

text \<open>
  \<open>str.replace(old, new)\<close> replaces every non-overlapping occurrence of \<open>old\<close>, scanning
  from the left; with an empty \<open>old\<close> it inserts \<open>new\<close> around every character.
\<close>

function str_replace_scan :: "string \<Rightarrow> string \<Rightarrow> string \<Rightarrow> string" where
  "str_replace_scan old new s =
     (if old = [] then s
      else if prefix old s then new @ str_replace_scan old new (drop (length old) s)
      else (case s of [] \<Rightarrow> [] | c # cs \<Rightarrow> c # str_replace_scan old new cs))"
  by pat_completeness auto
termination
  by (relation "measure (\<lambda>(old, new, s). length s)") (auto simp: prefix_def)

definition str_replace :: "string \<Rightarrow> string \<Rightarrow> string \<Rightarrow> string" where
  "str_replace old new s =
     (if old = [] then new @ concat (map (\<lambda>c. c # new) s) else str_replace_scan old new s)"

text \<open>
  Both branches first group the answers by \<open>blank_id\<close> in a dict, which keeps the blank ids
  in order of first appearance and the answers of a blank in wire order.
\<close>

fun dict_append :: "(string \<times> answer list) list \<Rightarrow> string \<Rightarrow> answer \<Rightarrow> (string \<times> answer list) list" where
  "dict_append [] k a = [(k, [a])]"
| "dict_append ((k', as) # kvs) k a =
     (if k' = k then (k', as @ [a]) # kvs else (k', as) # dict_append kvs k a)"

definition group_by_blank :: "answer list \<Rightarrow> (string \<times> answer list) list" where
  "group_by_blank as = foldl (\<lambda>options a. dict_append options (blank_id a) a) [] as"

definition pl_string_input_blank :: "string \<Rightarrow> string \<Rightarrow> string" where
  \<open>pl_string_input_blank answer_id correct =
     ''<pl-string-input answers-name="'' @ answer_id @ ''" correct-answer="'' @ correct
       @ ''" remove-spaces="true" ignore-case="true" display="inline"></pl-string-input>''\<close>

text \<open>
  Lines 488-493: the loop over the blanks calls \<open>question_text.replace(...)\<close> and drops the
  string it returns; \<open>question_text\<close> is never rebound. \<open>answers[0]\<close> cannot fail, as every
  entry of the dict holds at least one answer; the model returns the text unchanged for an
  entry without one.
\<close>

definition fill_in_blank_step :: "string \<Rightarrow> string \<times> answer list \<Rightarrow> string" where
  "fill_in_blank_step qtext entry =
     (case entry of (answer_id, as) \<Rightarrow>
        (case as of
           [] \<Rightarrow> qtext
         | a0 # _ \<Rightarrow>
             (let discarded = str_replace (''['' @ answer_id @ '']'')
                                (pl_string_input_blank answer_id (answer_text a0)) qtext
              in qtext)))"

definition fill_in_multiple_blanks_markup :: "string \<Rightarrow> answer list \<Rightarrow> string" where
  \<open>fill_in_multiple_blanks_markup qtext as =
     foldl fill_in_blank_step qtext (group_by_blank as) @ ''\<newline>''\<close>

text \<open>
  Lines 505-522, the sibling branch for \<open>multiple_dropdowns_question\<close>: the same loop, but
  the result of \<open>replace\<close> is assigned back to \<open>question_text\<close>.
\<close>

definition dropdown_answer :: "answer \<Rightarrow> string" where
  \<open>dropdown_answer a =
     ''  <pl-answer'' @ (if weight a > 0 then '' correct="true"'' else '''')
       @ ''>'' @ answer_text a @ ''</pl-answer>\<newline>''\<close>

definition dropdown_element :: "string \<Rightarrow> answer list \<Rightarrow> string" where
  \<open>dropdown_element blank as =
     ''<pl-multiple-choice display="dropdown" hide-letter-keys="true" answers-name="'' @ blank
       @ ''">\<newline>'' @ concat (map dropdown_answer as) @ ''</pl-multiple-choice>''\<close>

definition dropdown_step :: "string \<Rightarrow> string \<times> answer list \<Rightarrow> string" where
  "dropdown_step qtext entry =
     (case entry of (blank, as) \<Rightarrow>
        str_replace (''['' @ blank @ '']'') (dropdown_element blank as) qtext)"

definition multiple_dropdowns_markup :: "string \<Rightarrow> answer list \<Rightarrow> string" where
  \<open>multiple_dropdowns_markup qtext as =
     foldl dropdown_step qtext (group_by_blank as) @ ''\<newline>''\<close>

text \<open>Whether \<open>pat\<close> occurs in \<open>s\<close> (Python's \<open>pat in s\<close>).\<close>

fun contains :: "string \<Rightarrow> string \<Rightarrow> bool" where
  "contains pat [] = (pat = [])"
| "contains pat (c # cs) = (prefix pat (c # cs) \<or> contains pat cs)"

section \<open>Text sanitizer (\<open>clean_question_text\<close>, lines 187-198)\<close>






text \<open>
  For the properties: \<open>deleted_marks\<close> follows the same scan and marks each character of
  the text as deleted or kept; \<open>unmarked\<close> is the text of the kept characters.
\<close>

function deleted_marks :: "(string \<Rightarrow> nat option) \<Rightarrow> string \<Rightarrow> bool list" where
  "deleted_marks m [] = []"
| "deleted_marks m (c # cs) =
     (case m (c # cs) of
        None \<Rightarrow> False # deleted_marks m cs
      | Some 0 \<Rightarrow> False # deleted_marks m cs
      | Some (Suc n) \<Rightarrow> True # replicate (min n (length cs)) True @ deleted_marks m (drop n cs))"
  by pat_completeness auto
termination
  by (relation "measure (\<lambda>(m, s). length s)") auto


section \<open>Assessment assembler (lines 335-388 of \<open>main\<close>)\<close>

text \<open>
  \<open>file_name_only\<close> deletes every run of characters matching \<open>[\W_]\<close>, which leaves the
  letters and digits. Characters are bytes here, so the letters are the ASCII ones; the
  non-ASCII letters that \<open>\w\<close> also accepts are outside the model.
\<close>

definition is_alnum :: "char \<Rightarrow> bool" where
  "is_alnum c \<longleftrightarrow>
     (let n = (of_char c :: nat)
      in (48 \<le> n \<and> n \<le> 57) \<or> (65 \<le> n \<and> n \<le> 90) \<or> (97 \<le> n \<and> n \<le> 122))"

definition file_name_only :: "string \<Rightarrow> string" where
  "file_name_only name = filter is_alnum name"

text \<open>
  Lines 352-358: the question directory is named after the title; while that name exists
  under \<open>questions_dir\<close>, the counter \<open>suffix\<close> (here \<open>sfx\<close>) is increased and the name becomes
  \<open>title_suffix\<close>. \<open>existing\<close> lists the entries of \<open>questions_dir\<close>; joining the empty name
  to the directory gives the directory itself, which exists.
\<close>

definition path_exists :: "string list \<Rightarrow> string \<Rightarrow> bool" where
  "path_exists existing name \<longleftrightarrow> name = [] \<or> name \<in> set existing"

definition candidate_name :: "string \<Rightarrow> nat \<Rightarrow> string" where
  "candidate_name question_title sfx =
     (if sfx = 0 then file_name_only question_title
      else file_name_only question_title @ ''_'' @ str_nat sfx)"

text \<open>The number a decimal text denotes; it recovers \<open>n\<close> from \<open>str_nat n\<close>.\<close>

definition digits_value :: "string \<Rightarrow> nat" where
  "digits_value s = foldl (\<lambda>acc c. 10 * acc + (of_char c - 48)) 0 s"

lemma digit_chars:
  "digit_char 0 = CHR ''0''" "digit_char 1 = CHR ''1''" "digit_char 2 = CHR ''2''"
  by (simp_all add: digit_char_def char_of_def bit_iff_odd)

lemma of_char_digit_char: "d < 10 \<Longrightarrow> (of_char (digit_char d) :: nat) = 48 + d"
  by (simp add: digit_char_def)

lemma digits_value_str_nat: "digits_value (str_nat n) = n"
proof (induction n rule: str_nat.induct)
  case (1 n)
  show ?case
  proof (cases "n < 10")
    case True
    then show ?thesis
      by (subst str_nat.simps) (simp add: digits_value_def of_char_digit_char)
  next
    case False
    with 1 have "digits_value (str_nat (n div 10)) = n div 10" by simp
    with False show ?thesis
      by (subst str_nat.simps) (simp add: digits_value_def of_char_digit_char)
  qed
qed

lemma str_nat_inj: "str_nat m = str_nat n \<Longrightarrow> m = n"
  by (metis digits_value_str_nat)

lemma candidate_name_inj: "candidate_name t j = candidate_name t k \<Longrightarrow> j = k"
proof -
  assume eq: "candidate_name t j = candidate_name t k"
  have differ: "file_name_only t \<noteq> file_name_only t @ ''_'' @ str_nat m" for m
    by simp
  show ?thesis
  proof (cases "j = 0")
    case j0: True
    show ?thesis
    proof (cases "k = 0")
      case True
      with j0 show ?thesis by simp
    next
      case False
      with j0 eq differ [of k] show ?thesis by (simp add: candidate_name_def)
    qed
  next
    case jpos: False
    show ?thesis
    proof (cases "k = 0")
      case True
      with jpos eq differ [of j] show ?thesis by (simp add: candidate_name_def)
    next
      case False
      with jpos eq have "str_nat j = str_nat k" by (simp add: candidate_name_def)
      then show ?thesis by (rule str_nat_inj)
    qed
  qed
qed

lemma finite_existing_candidates:
  "finite {k. path_exists existing (candidate_name t k)}"
proof -
  have inj: "inj (candidate_name t)"
    by (rule injI) (rule candidate_name_inj)
  have "{k. path_exists existing (candidate_name t k)}
      \<subseteq> candidate_name t -` (insert [] (set existing))"
    by (auto simp: path_exists_def)
  moreover have "finite (candidate_name t -` (insert [] (set existing)))"
    by (rule finite_vimageI [OF _ inj]) simp
  ultimately show ?thesis by (rule finite_subset)
qed

function probe_suffix :: "string list \<Rightarrow> string \<Rightarrow> nat \<Rightarrow> nat" where
  "probe_suffix existing question_title sfx =
     (if path_exists existing (candidate_name question_title sfx)
      then probe_suffix existing question_title (Suc sfx)
      else sfx)"
  by pat_completeness auto
termination
proof (relation "measure (\<lambda>(existing, t, sfx).
    card {k. sfx \<le> k \<and> path_exists existing (candidate_name t k)})", goal_cases)
  case 1
  show ?case by simp
next
  case (2 existing t sfx)
  let ?A = "{k. Suc sfx \<le> k \<and> path_exists existing (candidate_name t k)}"
  let ?B = "{k. sfx \<le> k \<and> path_exists existing (candidate_name t k)}"
  have fin: "finite ?B"
    by (rule finite_subset [OF _ finite_existing_candidates [of existing t]]) auto
  from 2 have "sfx \<in> ?B" and "sfx \<notin> ?A" by auto
  moreover have "?A \<subseteq> ?B" by auto
  ultimately have "?A \<subset> ?B" by blast
  with fin have "card ?A < card ?B" by (rule psubset_card_mono)
  then show ?case by simp
qed

declare probe_suffix.simps [simp del]

definition question_name_for :: "string list \<Rightarrow> string \<Rightarrow> string" where
  "question_name_for existing question_title =
     candidate_name question_title (probe_suffix existing question_title 0)"

text \<open>
  The entries of the assessment's question list. \<open>question_alt\<close> is the dict of lines
  360-363; the \<open>_pl_alt\<close> dict of lines 368-372 is a \<open>pl_alt_wrapper\<close>, stored in its group
  and appended to \<open>pl_quiz_questions\<close> by reference. The reference is \<open>GroupWrapper gid\<close>,
  so that a later \<open>append\<close> to the group's alternatives shows in the list, as it does for
  the shared Python object.
\<close>

record alternative =
  alt_id :: string
  alt_points :: rat

record pl_alt_wrapper =
  numberChoose :: int
  wrapper_points :: rat
  alternatives :: "alternative list"

record group =
  pick_count :: int
  question_points :: rat
  group_position :: int
  pl_alt :: "pl_alt_wrapper option"

datatype entry = Standalone alternative | GroupWrapper nat

datatype json = JStr string | JList "json list"

datatype file_content = InfoJson "(string \<times> json) list" | Emitted string

text \<open>
  What the loop of \<open>main\<close> reads and changes: the operator's remaining input lines, the
  entries of \<open>questions_dir\<close>, the files written so far as (question directory, file name,
  content), the number of UUIDs drawn, the \<open>groups\<close> dict and \<open>pl_quiz_questions\<close>.
\<close>

record assembler_state =
  st_stdin :: "string list"
  st_dirs :: "string list"
  st_files :: "(string \<times> string \<times> file_content) list"
  st_uuids :: nat
  st_groups :: "nat \<rightharpoonup> group"
  pl_quiz_questions :: "entry list"

text \<open>
  What the loop takes from outside: the quiz title, the \<open>--topic\<close> option, the random
  UUIDs in the order they are drawn, and \<open>emit\<close>, the rest of an iteration after
  \<open>info.json\<close> is written (lines 390-558: image download, \<open>question.html\<close>, \<open>server.py\<close>).
  \<open>emit\<close> gets the question, its directory name and the remaining input lines; it either
  raises or returns the files it wrote in that directory and the input lines left.
\<close>

record assembler_env =
  quiz_title :: string
  topic :: string
  uuid4 :: "nat \<Rightarrow> string"
  emit :: "question \<Rightarrow> string \<Rightarrow> string list \<Rightarrow> py_error + ((string \<times> string) list \<times> string list)"

text \<open>Truth value of \<open>question["quiz_group_id"]\<close>: \<open>None\<close> and \<open>0\<close> are false.\<close>

definition truthy_group_id :: "nat option \<Rightarrow> nat option" where
  "truthy_group_id gid = (case gid of None \<Rightarrow> None | Some g \<Rightarrow> if g = 0 then None else Some g)"

definition question_alt :: "string \<Rightarrow> string \<Rightarrow> question \<Rightarrow> alternative" where
  "question_alt title question_name question =
     \<lparr>alt_id = file_name_only title @ ''/'' @ question_name,
      alt_points = points_possible question\<rparr>"

definition new_pl_alt :: "group \<Rightarrow> pl_alt_wrapper" where
  "new_pl_alt grp =
     \<lparr>numberChoose = pick_count grp, wrapper_points = question_points grp,
      alternatives = []\<rparr>"

text \<open>Lines 365-376.\<close>

definition record_alternative ::
  "question \<Rightarrow> alternative \<Rightarrow> assembler_state \<Rightarrow> py_error + assembler_state" where
  "record_alternative question alt st =
     (case truthy_group_id (quiz_group_id question) of
        None \<Rightarrow> Inr (st\<lparr>pl_quiz_questions := pl_quiz_questions st @ [Standalone alt]\<rparr>)
      | Some gid \<Rightarrow>
          (case st_groups st gid of
             None \<Rightarrow> Inl KeyError
           | Some grp \<Rightarrow>
               (case pl_alt grp of
                  None \<Rightarrow>
                    Inr (st\<lparr>st_groups := (st_groups st)(gid \<mapsto>
                               grp\<lparr>pl_alt := Some ((new_pl_alt grp)\<lparr>alternatives := [alt]\<rparr>)\<rparr>),
                            pl_quiz_questions := pl_quiz_questions st @ [GroupWrapper gid]\<rparr>)
                | Some w \<Rightarrow>
                    Inr (st\<lparr>st_groups := (st_groups st)(gid \<mapsto>
                               grp\<lparr>pl_alt := Some (w\<lparr>alternatives := alternatives w @ [alt]\<rparr>)\<rparr>)\<rparr>))))"

text \<open>Lines 379-387: the object dumped into \<open>info.json\<close>.\<close>

definition info_obj :: "string \<Rightarrow> string \<Rightarrow> string \<Rightarrow> question \<Rightarrow> (string \<times> json) list" where
  "info_obj uuid question_title topic_name question =
     [(''uuid'', JStr uuid), (''type'', JStr ''v3''), (''title'', JStr question_title),
      (''topic'', JStr topic_name), (''tags'', JList [JStr ''fromcanvas''])]
     @ (if question_type question = ''text_only_question''
           \<or> question_type question = ''essay_question''
        then [(''gradingMethod'', JStr ''Manual'')] else [])"

text \<open>
  One iteration of the loop at line 335. The screen output is not modelled. A blank
  title ends the iteration at line 351.
\<close>

definition handle_question ::
  "assembler_env \<Rightarrow> assembler_state \<Rightarrow> question \<Rightarrow> py_error + assembler_state" where
  "handle_question env st question =
     (case py_input (st_stdin st) of
        Inl e \<Rightarrow> Inl e
      | Inr (question_title, rest) \<Rightarrow>
          if question_title = [] then Inr (st\<lparr>st_stdin := rest\<rparr>)
          else
            (let question_name = question_name_for (st_dirs st) question_title;
                 st1 = st\<lparr>st_stdin := rest, st_dirs := st_dirs st @ [question_name]\<rparr>
             in case record_alternative question
                       (question_alt (quiz_title env) question_name question) st1 of
                  Inl e \<Rightarrow> Inl e
                | Inr st2 \<Rightarrow>
                    (let info = info_obj (uuid4 env (st_uuids st2)) question_title (topic env) question;
                         st3 = st2\<lparr>st_files := st_files st2 @ [(question_name, ''info.json'', InfoJson info)],
                                  st_uuids := Suc (st_uuids st2)\<rparr>
                     in case emit env question question_name (st_stdin st3) of
                          Inl e \<Rightarrow> Inl e
                        | Inr (emitted, rest') \<Rightarrow>
                            Inr (st3\<lparr>st_files := st_files st3
                                        @ map (\<lambda>(name, content). (question_name, name, Emitted content)) emitted,
                                     st_stdin := rest'\<rparr>))))"

fun main_loop ::
  "assembler_env \<Rightarrow> assembler_state \<Rightarrow> question list \<Rightarrow> py_error + assembler_state" where
  "main_loop env st [] = Inr st"
| "main_loop env st (question # rest) =
     (case handle_question env st question of
        Inl e \<Rightarrow> Inl e
      | Inr st' \<Rightarrow> main_loop env st' rest)"

text \<open>
  Line 569: the list dumped under \<open>zones[0].questions\<close>. Each reference to a group's
  \<open>_pl_alt\<close> is read at that moment. A reference whose group has no \<open>_pl_alt\<close> cannot arise
  in a run; the model gives it no entry.
\<close>

datatype descriptor = Question alternative | Pool pl_alt_wrapper

definition resolve_entry :: "(nat \<rightharpoonup> group) \<Rightarrow> entry \<Rightarrow> descriptor list" where
  "resolve_entry gs e =
     (case e of
        Standalone alt \<Rightarrow> [Question alt]
      | GroupWrapper gid \<Rightarrow>
          (case gs gid of
             None \<Rightarrow> []
           | Some grp \<Rightarrow> (case pl_alt grp of None \<Rightarrow> [] | Some w \<Rightarrow> [Pool w])))"

definition zone_questions :: "assembler_state \<Rightarrow> descriptor list" where
  "zone_questions st = concat (map (resolve_entry (st_groups st)) (pl_quiz_questions st))"

text \<open>
  The confirmed questions of a run, in order, each with the alternative built for it at
  lines 360-363: the questions for which the operator gave a non-blank title.
\<close>

definition confirmed_alternative ::
  "assembler_env \<Rightarrow> assembler_state \<Rightarrow> question \<Rightarrow> alternative option" where
  "confirmed_alternative env st question =
     (case py_input (st_stdin st) of
        Inl e \<Rightarrow> None
      | Inr (question_title, rest) \<Rightarrow>
          if question_title = [] then None
          else Some (question_alt (quiz_title env)
                       (question_name_for (st_dirs st) question_title) question))"

fun confirmed ::
  "assembler_env \<Rightarrow> assembler_state \<Rightarrow> question list \<Rightarrow> (question \<times> alternative) list" where
  "confirmed env st [] = []"
| "confirmed env st (question # rest) =
     (case handle_question env st question of
        Inl e \<Rightarrow> []
      | Inr st' \<Rightarrow>
          (case confirmed_alternative env st question of
             None \<Rightarrow> confirmed env st' rest
           | Some alt \<Rightarrow> (question, alt) # confirmed env st' rest))"

text \<open>
  Lines 333-569 as one function: the loop, then the list dumped under
  \<open>zones[0].questions\<close>; an exception in the loop leaves no assessment.
\<close>

definition assemble ::
  "assembler_env \<Rightarrow> assembler_state \<Rightarrow> question list \<Rightarrow> py_error + descriptor list" where
  "assemble env st qs =
     (case main_loop env st qs of Inl e \<Rightarrow> Inl e | Inr st' \<Rightarrow> Inr (zone_questions st'))"

section \<open>Question/group reconciler (\<open>Quiz.question_group\<close>, \<open>Quiz.questions\<close>)\<close>

text \<open>
  \<open>Canvas.request\<close> (lines 27-41) either raises on a failed response
  (\<open>raise_for_status\<close>, for every status from 400 on, so also for the 404 of a record
  that does not exist) or returns the list of JSON pages, which holds the first page at
  least. The API is given by what \<open>request\<close> returns for the two paths the reconciler
  asks for: the question pages, and for each group id the pages of \<open>/groups/id\<close>. A
  group page is \<open>Some\<close> group record, or \<open>None\<close> for JSON that Python treats as false
  (\<open>null\<close>, an empty object).
\<close>

record canvas_api =
  questions_pages :: "py_error + question list list"
  group_pages :: "nat \<Rightarrow> py_error + group option list"

text \<open>Lines 139-144.\<close>

definition question_group :: "canvas_api \<Rightarrow> nat option \<Rightarrow> py_error + group option" where
  "question_group api group_id =
     (case truthy_group_id group_id of
        None \<Rightarrow> Inr None
      | Some gid \<Rightarrow>
          (case group_pages api gid of
             Inl e \<Rightarrow> Inl e
           | Inr pages \<Rightarrow> (case pages of [] \<Rightarrow> Inr None | grp # _ \<Rightarrow> Inr grp)))"

text \<open>
  \<open>d[k] = v\<close> on a dict, which keeps insertion order: an existing key keeps its place.
\<close>

fun dict_set :: "('k \<times> 'v) list \<Rightarrow> 'k \<Rightarrow> 'v \<Rightarrow> ('k \<times> 'v) list" where
  "dict_set [] k v = [(k, v)]"
| "dict_set ((k', v') # kvs) k v =
     (if k' = k then (k', v) # kvs else (k', v') # dict_set kvs k v)"

text \<open>
  Lines 153-166, the body of the loop over the questions on the wire. The state is the
  \<open>questions\<close> dict, the \<open>groups\<close> dict and the counter \<open>i\<close>.
\<close>

definition reconcile_question ::
  "canvas_api \<Rightarrow> (nat \<times> question) list \<times> (nat \<times> group) list \<times> int \<Rightarrow> question
     \<Rightarrow> py_error + ((nat \<times> question) list \<times> (nat \<times> group) list \<times> int)" where
  "reconcile_question api s question =
     (case s of (questions, groups, i) \<Rightarrow>
        (case (case (case quiz_group_id question of
                       None \<Rightarrow> None
                     | Some gid \<Rightarrow> map_of groups gid) of
                 Some grp \<Rightarrow> Inr (Some grp, groups)
               | None \<Rightarrow>
                   (case question_group api (quiz_group_id question) of
                      Inl e \<Rightarrow> Inl e
                    | Inr None \<Rightarrow> Inr (None, groups)
                    | Inr (Some grp) \<Rightarrow>
                        (case quiz_group_id question of
                           None \<Rightarrow> Inr (Some grp, groups)
                         | Some gid \<Rightarrow> Inr (Some grp, dict_set groups gid grp)))) of
           Inl e \<Rightarrow> Inl e
         | Inr (Some grp, groups') \<Rightarrow>
             Inr (dict_set questions (question_id question)
                    (question\<lparr>points_possible := question_points grp,
                              position := group_position grp\<rparr>),
                  groups', i)
         | Inr (None, groups') \<Rightarrow>
             Inr (dict_set questions (question_id question) (question\<lparr>position := i\<rparr>),
                  groups', i + 1)))"

fun reconcile_loop ::
  "canvas_api \<Rightarrow> (nat \<times> question) list \<times> (nat \<times> group) list \<times> int \<Rightarrow> question list
     \<Rightarrow> py_error + ((nat \<times> question) list \<times> (nat \<times> group) list \<times> int)" where
  "reconcile_loop api s [] = Inr s"
| "reconcile_loop api s (question # rest) =
     (case reconcile_question api s question of
        Inl e \<Rightarrow> Inl e
      | Inr s' \<Rightarrow> reconcile_loop api s' rest)"

text \<open>
  Lines 168-175: one pass per value of the \<open>groups\<close> dict (a stored group is never
  false, so line 169 skips nothing). The pass selects the questions whose position is at
  least the group's and whose \<open>quiz_group_id\<close> is \<open>None\<close>, then adds one to each.
\<close>

definition shift_question :: "group \<Rightarrow> question \<Rightarrow> question" where
  "shift_question grp q =
     (if position q \<ge> group_position grp \<and> quiz_group_id q = None
      then q\<lparr>position := position q + 1\<rparr> else q)"

definition shift_for_group :: "group \<Rightarrow> (nat \<times> question) list \<Rightarrow> (nat \<times> question) list" where
  "shift_for_group grp questions = map (\<lambda>(k, q). (k, shift_question grp q)) questions"

definition shift_all :: "(nat \<times> group) list \<Rightarrow> (nat \<times> question) list \<Rightarrow> (nat \<times> question) list" where
  "shift_all groups questions = foldl (\<lambda>qs (gid, grp). shift_for_group grp qs) questions groups"

text \<open>Lines 146-180. \<open>sorted\<close> is stable, as \<open>sort_key\<close> is.\<close>

definition quiz_questions ::
  "canvas_api \<Rightarrow> py_error + ((nat \<times> question) list \<times> (nat \<times> group) list)" where
  "quiz_questions api =
     (case questions_pages api of
        Inl e \<Rightarrow> Inl e
      | Inr pages \<Rightarrow>
          (case reconcile_loop api ([], [], 1) (concat pages) of
             Inl e \<Rightarrow> Inl e
           | Inr (questions, groups, i) \<Rightarrow>
               Inr (sort_key (\<lambda>(k, q). position q) (shift_all groups questions),
                    sort_key (\<lambda>(k, g). group_position g) groups)))"

text \<open>
  Vocabulary for the properties of the reconciler. \<open>resolved_group\<close> is the group record
  a question's group id resolves to, if any; \<open>sequential\<close> is the value of the counter
  \<open>i\<close> after the questions \<open>ws\<close>; \<open>cache_ok\<close> and \<open>pass1_inv\<close> are the invariants of the
  first loop; \<open>shifted\<close> applies the passes of the second loop to one question.
\<close>

definition resolved_group :: "canvas_api \<Rightarrow> question \<Rightarrow> group option" where
  "resolved_group api q =
     (case question_group api (quiz_group_id q) of Inr (Some grp) \<Rightarrow> Some grp | _ \<Rightarrow> None)"

definition sequential :: "canvas_api \<Rightarrow> question list \<Rightarrow> int" where
  "sequential api ws = 1 + int (length (filter (\<lambda>q. resolved_group api q = None) ws))"

definition cache_ok :: "canvas_api \<Rightarrow> (nat \<times> group) list \<Rightarrow> bool" where
  "cache_ok api gs \<longleftrightarrow> (\<forall>gid grp. map_of gs gid = Some grp \<longrightarrow> question_group api (Some gid) = Inr (Some grp))"

definition pass1_inv ::
  "canvas_api \<Rightarrow> question list \<Rightarrow> (nat \<times> group) list \<Rightarrow> int \<Rightarrow> bool" where
  "pass1_inv api ws gs i \<longleftrightarrow>
     i = sequential api ws \<and> distinct (map fst gs)
     \<and> (\<forall>gid grp. map_of gs gid = Some grp \<longleftrightarrow>
           (\<exists>q\<in>set ws. quiz_group_id q = Some gid \<and> resolved_group api q = Some grp))"

definition shifted :: "(nat \<times> group) list \<Rightarrow> question \<Rightarrow> question" where
  "shifted gs q = foldl (\<lambda>q' (gid, grp). shift_question grp q') q gs"

text \<open>
  \<open>annotated\<close> is a wire question as the first loop leaves it, given the questions before
  it on the wire.
\<close>

definition annotated :: "canvas_api \<Rightarrow> question list \<Rightarrow> question \<Rightarrow> question" where
  "annotated api before q =
     (case resolved_group api q of
        Some grp \<Rightarrow> q\<lparr>points_possible := question_points grp, position := group_position grp\<rparr>
      | None \<Rightarrow> q\<lparr>position := sequential api before\<rparr>)"


definition item_positions :: "(nat \<times> question) list \<times> (nat \<times> group) list \<Rightarrow> int list" where
  "item_positions out =
     map (position \<circ> snd) (filter (\<lambda>(k, q). quiz_group_id q = None) (fst out))
     @ map (group_position \<circ> snd) (snd out)"

section \<open>Specification of the group aggregation\<close>

text \<open>
  The question list as the specification describes it, from the confirmed questions in
  order: an ungrouped question is a standalone entry; the first member of a group makes
  the group's wrapper at its own place, with the group's pick count and per-member
  points, and the wrapper lists that member and every later member of the group
  (\<open>members\<close>); the later members add no entry of their own (\<open>non_members\<close> drops them).
\<close>

definition members :: "nat \<Rightarrow> (question \<times> alternative) list \<Rightarrow> alternative list" where
  "members gid c = map snd (filter (\<lambda>(q, _). truthy_group_id (quiz_group_id q) = Some gid) c)"

definition non_members :: "nat \<Rightarrow> (question \<times> alternative) list \<Rightarrow> (question \<times> alternative) list" where
  "non_members gid c = filter (\<lambda>(q, _). truthy_group_id (quiz_group_id q) \<noteq> Some gid) c"

lemma length_non_members [termination_simp]: "length (non_members gid c) < Suc (length c)"
  by (simp add: non_members_def less_Suc_eq_le)

fun assemble_spec :: "(nat \<rightharpoonup> group) \<Rightarrow> (question \<times> alternative) list \<Rightarrow> descriptor list" where
  "assemble_spec gs [] = []"
| "assemble_spec gs ((q, alt) # rest) =
     (case truthy_group_id (quiz_group_id q) of
        None \<Rightarrow> Question alt # assemble_spec gs rest
      | Some gid \<Rightarrow>
          (case gs gid of
             None \<Rightarrow> assemble_spec gs rest
           | Some grp \<Rightarrow>
               Pool \<lparr>numberChoose = pick_count grp, wrapper_points = question_points grp,
                     alternatives = alt # members gid rest\<rparr>
               # assemble_spec gs (non_members gid rest)))"

text \<open>
  Vocabulary of the proof: a group is open once it holds a \<open>_pl_alt\<close>;
  \<open>resolve_extended\<close> reads an entry as it will be at the end of the run, when the
  confirmed questions \<open>c\<close> still to come have been appended to their wrappers;
  \<open>unopened\<close> keeps the confirmed questions that are ungrouped or whose group is not open
  yet; \<open>same_pools\<close> relates two \<open>groups\<close> dicts that agree on pick counts and points.
\<close>

definition is_open :: "(nat \<rightharpoonup> group) \<Rightarrow> nat \<Rightarrow> bool" where
  "is_open gs gid \<longleftrightarrow> (case gs gid of None \<Rightarrow> False | Some grp \<Rightarrow> pl_alt grp \<noteq> None)"

definition resolve_extended ::
  "(nat \<rightharpoonup> group) \<Rightarrow> (question \<times> alternative) list \<Rightarrow> entry \<Rightarrow> descriptor list" where
  "resolve_extended gs c e =
     (case e of
        Standalone alt \<Rightarrow> [Question alt]
      | GroupWrapper gid \<Rightarrow>
          (case gs gid of
             None \<Rightarrow> []
           | Some grp \<Rightarrow>
               (case pl_alt grp of
                  None \<Rightarrow> []
                | Some w \<Rightarrow> [Pool (w\<lparr>alternatives := alternatives w @ members gid c\<rparr>)])))"

definition unopened :: "(nat \<rightharpoonup> group) \<Rightarrow> (question \<times> alternative) list \<Rightarrow> (question \<times> alternative) list" where
  "unopened gs c =
     filter (\<lambda>(q, _). case truthy_group_id (quiz_group_id q) of
                        None \<Rightarrow> True | Some gid \<Rightarrow> \<not> is_open gs gid) c"

definition same_pools :: "(nat \<rightharpoonup> group) \<Rightarrow> (nat \<rightharpoonup> group) \<Rightarrow> bool" where
  "same_pools gs gs' \<longleftrightarrow>
     (\<forall>gid. map_option (\<lambda>g. (pick_count g, question_points g)) (gs gid)
          = map_option (\<lambda>g. (pick_count g, question_points g)) (gs' gid))"

section \<open>Example records\<close>

text \<open>
  \<open>answer0\<close> is an answer record with empty strings and zero numbers; the examples below
  set the fields their question type reads.
\<close>

definition answer0 :: answer where
  "answer0 = \<lparr>answer_text = [], weight = 0, blank_id = [], numerical_answer_type = [],
     exact = 0, margin = 0, answer_start = 0, answer_end = 0, approximate = 0, precision = 0\<rparr>"

definition paris :: answer where
  "paris = answer0\<lparr>answer_text := ''Paris'', weight := 100, blank_id := ''b1''\<rparr>"

definition exact_7 :: answer where
  "exact_7 = answer0\<lparr>numerical_answer_type := ''exact_answer'', exact := 7, margin := 0\<rparr>"

definition exact_minus_7 :: answer where
  "exact_minus_7 = answer0\<lparr>numerical_answer_type := ''exact_answer'', exact := - 7, margin := 0\<rparr>"

text \<open>
  Numerical answers as \<open>json\<close> reads them: the literals 7.3 with margin 0.1, 6.9995,
  7.0005 and 3.001 with margin 0, the ranges from 2 to 4 and from 0.1 to 0.2, and 3.14
  with 3 digits.
\<close>

definition exact_7_3 :: answer where
  "exact_7_3 = answer0\<lparr>numerical_answer_type := ''exact_answer'',
     exact := round_double (73 / 10), margin := round_double (1 / 10)\<rparr>"

definition exact_6_9995 :: answer where
  "exact_6_9995 = answer0\<lparr>numerical_answer_type := ''exact_answer'',
     exact := round_double (69995 / 10000), margin := 0\<rparr>"

definition exact_7_0005 :: answer where
  "exact_7_0005 = answer0\<lparr>numerical_answer_type := ''exact_answer'',
     exact := round_double (70005 / 10000), margin := 0\<rparr>"

definition exact_3_001 :: answer where
  "exact_3_001 = answer0\<lparr>numerical_answer_type := ''exact_answer'',
     exact := round_double (3001 / 1000), margin := 0\<rparr>"

definition range_2_4 :: answer where
  "range_2_4 = answer0\<lparr>numerical_answer_type := ''range_answer'', answer_start := 2,
     answer_end := 4\<rparr>"

definition range_01_02 :: answer where
  "range_01_02 = answer0\<lparr>numerical_answer_type := ''range_answer'',
     answer_start := round_double (1 / 10), answer_end := round_double (2 / 10)\<rparr>"

definition precision_3_14 :: answer where
  "precision_3_14 = answer0\<lparr>numerical_answer_type := ''precision_answer'',
     approximate := round_double (314 / 100), precision := 3\<rparr>"

text \<open>
  A run of the assembler: four questions, the second and fourth in group 7 (pick 1, 5
  points each); the operator names them First, Second, skips the third, and names the
  last one Third. \<open>emit\<close> writes the body as \<open>question.html\<close> and reads no input.
\<close>

definition question0 :: question where
  "question0 = \<lparr>question_id = 0, quiz_group_id = None, position = 0, points_possible = 0,
     question_type = [], question_text = [], answers = []\<rparr>"

definition example_env :: assembler_env where
  "example_env = \<lparr>quiz_title = ''Quiz 1'', topic = ''None'',
     uuid4 = (\<lambda>n. ''uuid-'' @ str_nat n),
     emit = (\<lambda>q dir lines. Inr ([(''question.html'', question_text q)], lines))\<rparr>"

definition example_group :: group where
  "example_group = \<lparr>pick_count = 1, question_points = 5, group_position = 2, pl_alt = None\<rparr>"

definition example_state :: assembler_state where
  "example_state = \<lparr>st_stdin = [''First'', ''Second'', [], ''Third''], st_dirs = [],
     st_files = [], st_uuids = 0, st_groups = [7 \<mapsto> example_group], pl_quiz_questions = []\<rparr>"

definition essay_1 :: question where
  "essay_1 = question0\<lparr>question_id := 1, points_possible := 2, question_type := ''essay_question''\<rparr>"

definition pooled_2 :: question where
  "pooled_2 = question0\<lparr>question_id := 2, quiz_group_id := Some 7, points_possible := 5\<rparr>"

definition plain_3 :: question where
  "plain_3 = question0\<lparr>question_id := 3, points_possible := 1\<rparr>"

definition pooled_4 :: question where
  "pooled_4 = question0\<lparr>question_id := 4, quiz_group_id := Some 7, points_possible := 5\<rparr>"

definition example_questions :: "question list" where
  "example_questions = [essay_1, pooled_2, plain_3, pooled_4]"

text \<open>
  An API that serves those four questions on two pages and knows group 7 only; any other
  group id gets an empty answer.
\<close>

definition example_api :: canvas_api where
  "example_api = \<lparr>questions_pages = Inr [[essay_1, pooled_2], [plain_3, pooled_4]],
     group_pages = (\<lambda>gid. if gid = 7 then Inr [Some example_group] else Inr [None])\<rparr>"

lemmas example_defs = example_env_def example_state_def example_questions_def example_group_def
  question0_def essay_1_def pooled_2_def plain_3_def pooled_4_def
text \<open>
  A question that names group 9, for which the API has no record. \<open>missing_group_api\<close>
  answers the request for a group other than 7 with status 404, on which \<open>request\<close>
  raises. \<open>empty_group_api\<close> answers it with an empty record; it serves the question first,
  then a member of group 7, which has position 1 there, then an ungrouped question.
  \<open>ungrouped_api\<close> serves the first question without its group id instead.
\<close>

definition orphan_5 :: question where
  "orphan_5 = question0\<lparr>question_id := 5, quiz_group_id := Some 9, points_possible := 1\<rparr>"

definition missing_group_api :: canvas_api where
  "missing_group_api = \<lparr>questions_pages = Inr [[essay_1, orphan_5, plain_3]],
     group_pages = (\<lambda>gid. if gid = 7 then Inr [Some example_group] else Inl HTTPError)\<rparr>"

text \<open>
  Two groups, 7 and 8, at positions 1 and 3 of a quiz with two ungrouped questions; any
  other group id gets an empty answer. The API serves a member of the later group first
  in \<open>out_of_order_api\<close>, and the members in the order of their groups' positions in
  \<open>in_order_api\<close>.
\<close>

definition first_group :: group where
  "first_group = \<lparr>pick_count = 1, question_points = 5, group_position = 1, pl_alt = None\<rparr>"

definition third_group :: group where
  "third_group = \<lparr>pick_count = 1, question_points = 5, group_position = 3, pl_alt = None\<rparr>"

definition pooled_8 :: question where
  "pooled_8 = question0\<lparr>question_id := 8, quiz_group_id := Some 8, points_possible := 5\<rparr>"

definition two_group_pages :: "nat \<Rightarrow> py_error + group option list" where
  "two_group_pages gid =
     (if gid = 7 then Inr [Some first_group]
      else if gid = 8 then Inr [Some third_group] else Inr [None])"

definition empty_group_api :: canvas_api where
  "empty_group_api = \<lparr>questions_pages = Inr [[orphan_5, pooled_2, plain_3]],
     group_pages = two_group_pages\<rparr>"

definition ungrouped_api :: canvas_api where
  "ungrouped_api = \<lparr>questions_pages = Inr [[orphan_5\<lparr>quiz_group_id := None\<rparr>, pooled_2, plain_3]],
     group_pages = two_group_pages\<rparr>"

definition out_of_order_api :: canvas_api where
  "out_of_order_api = \<lparr>questions_pages = Inr [[pooled_8, essay_1, plain_3, pooled_2]],
     group_pages = two_group_pages\<rparr>"

definition in_order_api :: canvas_api where
  "in_order_api = \<lparr>questions_pages = Inr [[pooled_2, essay_1, plain_3, pooled_8]],
     group_pages = two_group_pages\<rparr>"

text \<open>
  Three more wires for the same groups: one ungrouped question and a member of the group
  at position 3; two questions with the same id; and \<open>empty_group_api\<close> above, where a
  group id does not resolve.
\<close>

definition gap_api :: canvas_api where
  "gap_api = \<lparr>questions_pages = Inr [[essay_1, pooled_8]], group_pages = two_group_pages\<rparr>"

definition duplicate_api :: canvas_api where
  "duplicate_api = \<lparr>questions_pages = Inr [[essay_1, plain_3\<lparr>question_id := 1\<rparr>]],
     group_pages = two_group_pages\<rparr>"

lemmas two_group_defs = first_group_def third_group_def pooled_8_def two_group_pages_def
  out_of_order_api_def in_order_api_def gap_api_def duplicate_api_def

lemmas orphan_defs = orphan_5_def missing_group_api_def empty_group_api_def ungrouped_api_def

lemmas reconciler_defs = reconcile_question_def question_group_def truthy_group_id_def
  shift_all_def shift_for_group_def shift_question_def quiz_questions_def

lemmas assembler_defs = handle_question_def py_input_def question_name_for_def probe_suffix.simps
  candidate_name_def path_exists_def file_name_only_def is_alnum_def record_alternative_def
  truthy_group_id_def question_alt_def new_pl_alt_def info_obj_def Let_def confirmed_alternative_def

definition fmt_truncated :: "rat \<Rightarrow> string" where
  "fmt_truncated r = str_int (py_int r)"

section \<open>Specification-side predicates\<close>

text \<open>
  \<open>within_of_integer x n\<close>: the number \<open>x\<close> is within 0.001 of the integer \<open>n\<close>.
\<close>

definition within_of_integer :: "rat \<Rightarrow> int \<Rightarrow> bool" where
  "within_of_integer x n \<longleftrightarrow> \<bar>x - of_int n\<bar> < 1 / 1000"

section \<open>Properties of the renderer\<close>

subsection \<open>Blanks\<close>

lemma foldl_fill_in_blank_step: "foldl fill_in_blank_step qtext opts = qtext"
  by (induction opts arbitrary: qtext)
     (auto simp: fill_in_blank_step_def Let_def split: list.splits prod.splits)

lemma fill_in_multiple_blanks_markup_unchanged:
  \<open>fill_in_multiple_blanks_markup qtext as = qtext @ ''\<newline>''\<close>
  by (simp add: fill_in_multiple_blanks_markup_def foldl_fill_in_blank_step)

text \<open>
  Claim C1 says that every \<open>[blank_id]\<close> placeholder of a fill_in_multiple_blanks question
  is replaced by a string input in the written markup. The code writes the body as it was:
  for the body \<open>Capital: [b1]\<close> with the answer \<open>Paris\<close> for blank \<open>b1\<close> the markup still
  contains \<open>[b1]\<close>, while the multiple_dropdowns branch substitutes the same placeholder.
\<close>

theorem fill_in_blanks_placeholder_survives:
  \<open>fill_in_multiple_blanks_markup ''Capital: [b1]'' [paris] = ''Capital: [b1]\<newline>''
   \<and> contains ''[b1]'' (fill_in_multiple_blanks_markup ''Capital: [b1]'' [paris])
   \<and> \<not> contains ''[b1]'' (multiple_dropdowns_markup ''Capital: [b1]'' [paris])\<close>
  by (simp add: fill_in_multiple_blanks_markup_unchanged multiple_dropdowns_markup_def
      group_by_blank_def paris_def answer0_def dropdown_step_def str_replace_def
      dropdown_element_def dropdown_answer_def)

subsection \<open>Numerical answers\<close>

text \<open>
  \<open>round_double\<close> on known values: the doubles of 0.1, 0.3 and 0.001, and the sum
  \<open>0.1 + 0.2\<close>, which is the double above that of 0.3.
\<close>

lemma round_double_examples:
  "round_double (1 / 10) = 3602879701896397 / 36028797018963968
   \<and> round_double (3 / 10) = 5404319552844595 / 18014398509481984
   \<and> float_add (round_double (1 / 10)) (round_double (2 / 10))
       = 5404319552844596 / 18014398509481984
   \<and> round_double (1 / 1000) = 1152921504606847 / 1152921504606846976
   \<and> round_double (round_double (1 / 10)) = round_double (1 / 10)"
  by code_simp

text \<open>
  The rows of the rendering table of the specification: 7 with margin 0, 7.3 with margin
  0.1, the range from 2 to 4, 3.14 with 3 digits, and an unknown sub-variant.
\<close>

lemma numerical_rendering_examples:
  "numerical_input exact_7 = IntegerInput 7
   \<and> numerical_input exact_minus_7 = IntegerInput (- 7)
   \<and> numerical_input exact_7_3 = NumberInputAtol (round_double (73 / 10)) (round_double (1 / 10))
   \<and> numerical_input range_2_4 = NumberInputAtol 3 1
   \<and> numerical_input precision_3_14 = NumberInputSigfig (round_double (314 / 100)) 3
   \<and> numerical_input answer0 = NumberInputBare
   \<and> numerical_markup fmt_truncated [answer0] [''ok'']
       = Inr (numeric_input_markup fmt_truncated NumberInputBare, [])
   \<and> numerical_markup fmt_truncated [answer0] [] = Inl EOFError
   \<and> numerical_markup fmt_truncated [] [] = Inl IndexError"
  by code_simp

text \<open>
  Where rounding shows: the double of 3.001 is less than 0.001 above 3, so this answer
  takes the integer branch; for the range from 0.1 to 0.2 the code computes
  0.15000000000000002 and 0.04999999999999999.
\<close>

lemma numerical_rounding_examples:
  "exact exact_3_001 = 6757651240869429 / 2251799813685248
   \<and> numerical_input exact_3_001 = IntegerInput 3
   \<and> numerical_input range_01_02
       = NumberInputAtol (1351079888211149 / 9007199254740992)
           (900719925474099 / 18014398509481984)"
  by code_simp

text \<open>
  Claim C4 says that an exact answer with margin 0 whose value is within 0.001 of an
  integer yields an integer input for that integer. The test at line 446 compares the
  value with \<open>int\<close> of it, which truncates toward zero, so it sees the integer below a
  positive value only. The exact answer 6.9995 with margin 0 is within 0.001 of 7, and
  the code writes a number input for 6.9995 with tolerance 0; the answer 7.0005, as far
  from 7 on the other side, does get the integer input for 7.
\<close>

theorem numerical_near_integer_missed:
  "numerical_answer_type exact_6_9995 = ''exact_answer''
   \<and> margin exact_6_9995 = 0
   \<and> exact exact_6_9995 = 7880736397944947 / 1125899906842624
   \<and> within_of_integer (exact exact_6_9995) 7
   \<and> py_int (exact exact_6_9995) = 6
   \<and> numerical_input exact_6_9995 = NumberInputAtol (7880736397944947 / 1125899906842624) 0
   \<and> within_of_integer (exact exact_7_0005) 7
   \<and> numerical_input exact_7_0005 = IntegerInput 7"
  by code_simp

section \<open>Properties of the assembler\<close>

subsection \<open>Skipped questions\<close>

text \<open>
  Claim C7: when the operator's reply to the title prompt of a question is blank, the
  iteration only consumes that reply: no directory is created, no file is written,
  nothing is appended to the question list and no group gains a wrapper or a member. The
  questions after it are processed from that same state, so the loop and the final
  question list are those of the run without the skipped question.
\<close>

theorem blank_title_skips_question:
  "st_stdin st = [] # rest \<Longrightarrow>
     handle_question env st question = Inr (st\<lparr>st_stdin := rest\<rparr>)
     \<and> st_dirs (st\<lparr>st_stdin := rest\<rparr>) = st_dirs st
     \<and> st_files (st\<lparr>st_stdin := rest\<rparr>) = st_files st
     \<and> pl_quiz_questions (st\<lparr>st_stdin := rest\<rparr>) = pl_quiz_questions st
     \<and> st_groups (st\<lparr>st_stdin := rest\<rparr>) = st_groups st
     \<and> main_loop env st (question # questions) = main_loop env (st\<lparr>st_stdin := rest\<rparr>) questions
     \<and> confirmed env st (question # questions) = confirmed env (st\<lparr>st_stdin := rest\<rparr>) questions
     \<and> assemble env st (question # questions) = assemble env (st\<lparr>st_stdin := rest\<rparr>) questions"
  by (simp add: handle_question_def confirmed_alternative_def py_input_def assemble_def)

theorem blank_title_skips_question_witness:
  "st_stdin (example_state\<lparr>st_stdin := [[], ''Third'']\<rparr>) = [] # [''Third'']
   \<and> handle_question example_env (example_state\<lparr>st_stdin := [[], ''Third'']\<rparr>) question0
       = Inr (example_state\<lparr>st_stdin := [''Third'']\<rparr>)
   \<and> st_dirs (example_state\<lparr>st_stdin := [''Third'']\<rparr>) = []
   \<and> st_files (example_state\<lparr>st_stdin := [''Third'']\<rparr>) = []
   \<and> pl_quiz_questions (example_state\<lparr>st_stdin := [''Third'']\<rparr>) = []
   \<and> assemble example_env (example_state\<lparr>st_stdin := [[], ''Third'']\<rparr>) [question0, question0]
       = assemble example_env (example_state\<lparr>st_stdin := [''Third'']\<rparr>) [question0]"
  using blank_title_skips_question [of "example_state\<lparr>st_stdin := [[], ''Third'']\<rparr>"
      "[''Third'']" example_env question0 "[question0]"]
  by (simp add: example_state_def)

subsection \<open>The manual-grading flag\<close>

lemma map_of_info_obj:
  "map_of (info_obj u t tp q) ''gradingMethod''
     = (if question_type q = ''text_only_question'' \<or> question_type q = ''essay_question''
        then Some (JStr ''Manual'') else None)"
  by (simp add: info_obj_def)

lemma record_alternative_files:
  "record_alternative q a st = Inr st' \<Longrightarrow>
     st_files st' = st_files st \<and> st_uuids st' = st_uuids st \<and> st_dirs st' = st_dirs st
     \<and> st_stdin st' = st_stdin st"
  by (auto simp: record_alternative_def split: option.splits)

text \<open>
  Claim C10: an iteration that is not skipped writes, into the new question directory,
  first \<open>info.json\<close> and then only what \<open>emit\<close> produces; the object in \<open>info.json\<close> has
  the key \<open>gradingMethod\<close> exactly when the question type is \<open>text_only_question\<close> or
  \<open>essay_question\<close>, and its value is then \<open>Manual\<close>.
\<close>

theorem manual_grading_flag:
  "handle_question env st question = Inr st' \<Longrightarrow> st_stdin st = title # rest \<Longrightarrow> title \<noteq> [] \<Longrightarrow>
     (\<exists>info emitted.
        st_files st' = st_files st
          @ (question_name_for (st_dirs st) title, ''info.json'', InfoJson info)
          # map (\<lambda>(name, content). (question_name_for (st_dirs st) title, name, Emitted content))
              emitted
        \<and> info = info_obj (uuid4 env (st_uuids st)) title (topic env) question
        \<and> (map_of info ''gradingMethod'' = Some (JStr ''Manual'')
             \<longleftrightarrow> question_type question = ''text_only_question''
                 \<or> question_type question = ''essay_question'')
        \<and> (map_of info ''gradingMethod'' = None
             \<longleftrightarrow> \<not> (question_type question = ''text_only_question''
                 \<or> question_type question = ''essay_question'')))"
  apply (simp add: handle_question_def py_input_def Let_def split: sum.splits prod.splits)
  apply (auto dest!: record_alternative_files simp: map_of_info_obj)
  done

subsection \<open>Group wrappers\<close>

lemma assemble_spec_cong:
  "same_pools gs gs' \<Longrightarrow> assemble_spec gs c = assemble_spec gs' c"
proof (induction gs c rule: assemble_spec.induct)
  case (1 gs)
  then show ?case by simp
next
  case (2 gs q alt rest)
  show ?case
  proof (cases "truthy_group_id (quiz_group_id q)")
    case None
    with 2 show ?thesis by simp
  next
    case (Some gid)
    from "2.prems" have eq: "map_option (\<lambda>g. (pick_count g, question_points g)) (gs gid)
          = map_option (\<lambda>g. (pick_count g, question_points g)) (gs' gid)"
      by (simp add: same_pools_def)
    show ?thesis
    proof (cases "gs gid")
      case None
      with eq have "gs' gid = None" by simp
      with None Some 2 show ?thesis by simp
    next
      case (Some grp)
      with eq obtain grp' where g': "gs' gid = Some grp'"
        and "pick_count grp' = pick_count grp" "question_points grp' = question_points grp"
        by (cases "gs' gid") auto
      with Some \<open>truthy_group_id (quiz_group_id q) = Some gid\<close> 2 show ?thesis by simp
    qed
  qed
qed

lemma handle_question_effect:
  assumes "handle_question env st q = Inr st1"
  shows "case confirmed_alternative env st q of
           None \<Rightarrow> pl_quiz_questions st1 = pl_quiz_questions st \<and> st_groups st1 = st_groups st
         | Some a \<Rightarrow>
             (case truthy_group_id (quiz_group_id q) of
                None \<Rightarrow> pl_quiz_questions st1 = pl_quiz_questions st @ [Standalone a]
                          \<and> st_groups st1 = st_groups st
              | Some gid \<Rightarrow>
                  (\<exists>grp. st_groups st gid = Some grp \<and>
                     (case pl_alt grp of
                        None \<Rightarrow> pl_quiz_questions st1 = pl_quiz_questions st @ [GroupWrapper gid]
                                 \<and> st_groups st1 = (st_groups st)(gid \<mapsto>
                                      grp\<lparr>pl_alt := Some ((new_pl_alt grp)\<lparr>alternatives := [a]\<rparr>)\<rparr>)
                      | Some w \<Rightarrow> pl_quiz_questions st1 = pl_quiz_questions st
                                 \<and> st_groups st1 = (st_groups st)(gid \<mapsto>
                                      grp\<lparr>pl_alt := Some (w\<lparr>alternatives := alternatives w @ [a]\<rparr>)\<rparr>))))"
  using assms
  by (auto simp: handle_question_def confirmed_alternative_def py_input_def Let_def
        record_alternative_def
      split: sum.splits prod.splits option.splits list.splits if_splits)


lemma resolve_extended_Nil: "resolve_extended gs [] e = resolve_entry gs e"
  by (simp add: resolve_extended_def resolve_entry_def members_def split: entry.splits option.splits)

lemma resolve_extended_Standalone: "resolve_extended gs c (Standalone a) = [Question a]"
  by (simp add: resolve_extended_def)

lemma members_unopened:
  "\<not> is_open gs gid \<Longrightarrow> members gid (unopened gs c) = members gid c"
  by (induction c) (auto simp: members_def unopened_def split: option.splits)

lemma is_open_update:
  "pl_alt g' \<noteq> None \<Longrightarrow> is_open (gs(gid \<mapsto> g')) gid' \<longleftrightarrow> gid' = gid \<or> is_open gs gid'"
  by (auto simp: is_open_def)

lemma unopened_update_new:
  "pl_alt g' \<noteq> None \<Longrightarrow> unopened (gs(gid \<mapsto> g')) c = non_members gid (unopened gs c)"
  by (induction c) (auto simp: unopened_def non_members_def is_open_update split: option.splits)

lemma unopened_update_open:
  "pl_alt g' \<noteq> None \<Longrightarrow> is_open gs gid \<Longrightarrow> unopened (gs(gid \<mapsto> g')) c = unopened gs c"
  by (induction c) (auto simp: unopened_def is_open_update split: option.splits)

lemma same_pools_update:
  "gs gid = Some grp \<Longrightarrow> pick_count g' = pick_count grp \<Longrightarrow> question_points g' = question_points grp
     \<Longrightarrow> same_pools (gs(gid \<mapsto> g')) gs"
  by (auto simp: same_pools_def)

lemma main_loop_zone:
  assumes "main_loop env st qs = Inr st'"
    and "\<forall>gid. GroupWrapper gid \<in> set (pl_quiz_questions st) \<longrightarrow> is_open (st_groups st) gid"
  shows "zone_questions st'
       = concat (map (resolve_extended (st_groups st) (confirmed env st qs)) (pl_quiz_questions st))
         @ assemble_spec (st_groups st) (unopened (st_groups st) (confirmed env st qs))"
  using assms
proof (induction qs arbitrary: st)
  case Nil
  then show ?case
    by (simp add: zone_questions_def resolve_extended_Nil unopened_def)
next
  case (Cons q qs)
  from Cons.prems(1) obtain st1 where h: "handle_question env st q = Inr st1"
    and ml: "main_loop env st1 qs = Inr st'"
    by (auto split: sum.splits)
  let ?gs = "st_groups st" and ?gs1 = "st_groups st1"
  let ?c1 = "confirmed env st1 qs"
  note inv = Cons.prems(2)
  note eff = handle_question_effect [OF h]
  show ?case
  proof (cases "confirmed_alternative env st q")
    case None
    with eff have same: "pl_quiz_questions st1 = pl_quiz_questions st" "?gs1 = ?gs" by simp_all
    with inv have "\<forall>gid. GroupWrapper gid \<in> set (pl_quiz_questions st1) \<longrightarrow> is_open ?gs1 gid"
      by simp
    from Cons.IH [OF ml this] same None h show ?thesis by simp
  next
    case (Some a)
    then have conf: "confirmed env st (q # qs) = (q, a) # ?c1" using h by simp
    show ?thesis
    proof (cases "truthy_group_id (quiz_group_id q)")
      case None
      with eff Some have ent: "pl_quiz_questions st1 = pl_quiz_questions st @ [Standalone a]"
        and gs: "?gs1 = ?gs" by simp_all
      with inv have "\<forall>gid. GroupWrapper gid \<in> set (pl_quiz_questions st1) \<longrightarrow> is_open ?gs1 gid"
        by simp
      from Cons.IH [OF ml this]
      have ih: "zone_questions st'
          = concat (map (resolve_extended ?gs ?c1) (pl_quiz_questions st))
            @ Question a # assemble_spec ?gs (unopened ?gs ?c1)"
        by (simp add: ent gs resolve_extended_Standalone)
      have "resolve_extended ?gs ((q, a) # ?c1) e = resolve_extended ?gs ?c1 e" for e
        using None by (simp add: resolve_extended_def members_def split: entry.splits option.splits)
      moreover have "unopened ?gs ((q, a) # ?c1) = (q, a) # unopened ?gs ?c1"
        using None by (simp add: unopened_def)
      ultimately show ?thesis using ih None by (simp del: confirmed.simps add: conf)
    next
      case gid: (Some gid)
      with eff Some obtain grp where grp: "?gs gid = Some grp"
        and cases: "case pl_alt grp of
              None \<Rightarrow> pl_quiz_questions st1 = pl_quiz_questions st @ [GroupWrapper gid]
                       \<and> ?gs1 = ?gs(gid \<mapsto> grp\<lparr>pl_alt := Some ((new_pl_alt grp)\<lparr>alternatives := [a]\<rparr>)\<rparr>)
            | Some w \<Rightarrow> pl_quiz_questions st1 = pl_quiz_questions st
                       \<and> ?gs1 = ?gs(gid \<mapsto> grp\<lparr>pl_alt := Some (w\<lparr>alternatives := alternatives w @ [a]\<rparr>)\<rparr>)"
        by auto
      show ?thesis
      proof (cases "pl_alt grp")
        case None
        let ?g' = "grp\<lparr>pl_alt := Some ((new_pl_alt grp)\<lparr>alternatives := [a]\<rparr>)\<rparr>"
        from None cases have ent: "pl_quiz_questions st1 = pl_quiz_questions st @ [GroupWrapper gid]"
          and gs: "?gs1 = ?gs(gid \<mapsto> ?g')" by simp_all
        from None grp have closed: "\<not> is_open ?gs gid" by (simp add: is_open_def)
        with inv have notin: "GroupWrapper gid \<notin> set (pl_quiz_questions st)" by blast
        have inv1: "\<forall>gid'. GroupWrapper gid' \<in> set (pl_quiz_questions st1) \<longrightarrow> is_open ?gs1 gid'"
          using inv by (auto simp: ent gs is_open_update)
        have old: "resolve_extended ?gs1 ?c1 e = resolve_extended ?gs ((q, a) # ?c1) e"
          if "e \<in> set (pl_quiz_questions st)" for e
        proof (cases e)
          case (Standalone x)
          then show ?thesis by (simp add: resolve_extended_def)
        next
          case (GroupWrapper gid')
          with that notin have "gid' \<noteq> gid" by auto
          with GroupWrapper gid show ?thesis
            by (simp add: resolve_extended_def gs members_def split: option.splits)
        qed
        have new: "resolve_extended ?gs1 ?c1 (GroupWrapper gid)
            = [Pool \<lparr>numberChoose = pick_count grp, wrapper_points = question_points grp,
                     alternatives = a # members gid ?c1\<rparr>]"
          by (simp add: resolve_extended_def gs new_pl_alt_def)
        have un: "unopened ?gs ((q, a) # ?c1) = (q, a) # unopened ?gs ?c1"
          using gid closed by (simp add: unopened_def)
        have spec1: "assemble_spec ?gs1 (unopened ?gs1 ?c1)
            = assemble_spec ?gs (non_members gid (unopened ?gs ?c1))"
        proof -
          have "same_pools (?gs(gid \<mapsto> ?g')) ?gs"
            by (rule same_pools_update [where grp = grp]) (simp_all add: grp)
          then show ?thesis
            unfolding gs by (simp add: unopened_update_new assemble_spec_cong)
        qed
        from Cons.IH [OF ml inv1]
        have "zone_questions st'
            = concat (map (resolve_extended ?gs1 ?c1) (pl_quiz_questions st))
              @ resolve_extended ?gs1 ?c1 (GroupWrapper gid)
              @ assemble_spec ?gs1 (unopened ?gs1 ?c1)"
          by (simp add: ent)
        also have "map (resolve_extended ?gs1 ?c1) (pl_quiz_questions st)
            = map (resolve_extended ?gs ((q, a) # ?c1)) (pl_quiz_questions st)"
          using old by simp
        finally show ?thesis
          using gid grp
          by (simp del: confirmed.simps add: conf un new spec1 members_unopened [OF closed])
      next
        case (Some w)
        let ?g' = "grp\<lparr>pl_alt := Some (w\<lparr>alternatives := alternatives w @ [a]\<rparr>)\<rparr>"
        from Some cases have ent: "pl_quiz_questions st1 = pl_quiz_questions st"
          and gs: "?gs1 = ?gs(gid \<mapsto> ?g')" by simp_all
        from Some grp have opened: "is_open ?gs gid" by (simp add: is_open_def)
        have inv1: "\<forall>gid'. GroupWrapper gid' \<in> set (pl_quiz_questions st1) \<longrightarrow> is_open ?gs1 gid'"
          using inv by (auto simp: ent gs is_open_update)
        have old: "resolve_extended ?gs1 ?c1 e = resolve_extended ?gs ((q, a) # ?c1) e" for e
        proof (cases e)
          case (Standalone x)
          then show ?thesis by (simp add: resolve_extended_def)
        next
          case (GroupWrapper gid')
          with gid grp Some show ?thesis
            by (auto simp: resolve_extended_def gs members_def split: option.splits)
        qed
        have un: "unopened ?gs ((q, a) # ?c1) = unopened ?gs ?c1"
          using gid opened by (simp add: unopened_def)
        have spec1: "assemble_spec ?gs1 (unopened ?gs1 ?c1) = assemble_spec ?gs (unopened ?gs ?c1)"
        proof -
          have "same_pools (?gs(gid \<mapsto> ?g')) ?gs"
            by (rule same_pools_update [where grp = grp]) (simp_all add: grp)
          then show ?thesis
            unfolding gs by (simp add: unopened_update_open opened assemble_spec_cong)
        qed
        from Cons.IH [OF ml inv1] show ?thesis
          by (simp del: confirmed.simps add: ent conf un spec1 old)
      qed
    qed
  qed
qed

text \<open>
  Claim C6: a run that starts with an empty question list and groups without wrappers,
  and that ends without an exception, dumps exactly the list of the specification for
  its confirmed questions: one wrapper per group with a confirmed member, placed where
  the group's first confirmed member stands, carrying the group's pick count and
  per-member points and listing all confirmed members of the group in order; every
  ungrouped confirmed question is a standalone entry.
\<close>

theorem group_wrappers_assembled:
  assumes "assemble env st qs = Inr ds"
    and "pl_quiz_questions st = []"
    and "\<forall>gid grp. st_groups st gid = Some grp \<longrightarrow> pl_alt grp = None"
  shows "ds = assemble_spec (st_groups st) (confirmed env st qs)"
proof -
  from assms(1) obtain st' where run: "main_loop env st qs = Inr st'"
    and ds: "ds = zone_questions st'"
    by (auto simp: assemble_def split: sum.splits)
  have "unopened (st_groups st) c = c" for c
    using assms(3) by (induction c) (auto simp: unopened_def is_open_def split: option.splits)
  with main_loop_zone [OF run] assms(2) ds show ?thesis by simp
qed

theorem group_wrappers_assembled_witness:
  "assemble example_env example_state example_questions
     = Inr [Question \<lparr>alt_id = ''Quiz1/First'', alt_points = 2\<rparr>,
            Pool \<lparr>numberChoose = 1, wrapper_points = 5,
                  alternatives = [\<lparr>alt_id = ''Quiz1/Second'', alt_points = 5\<rparr>,
                                  \<lparr>alt_id = ''Quiz1/Third'', alt_points = 5\<rparr>]\<rparr>]
   \<and> pl_quiz_questions example_state = []
   \<and> st_groups example_state 7 = Some example_group
   \<and> pl_alt example_group = None
   \<and> assemble_spec (st_groups example_state)
        (confirmed example_env example_state example_questions)
     = [Question \<lparr>alt_id = ''Quiz1/First'', alt_points = 2\<rparr>,
        Pool \<lparr>numberChoose = 1, wrapper_points = 5,
              alternatives = [\<lparr>alt_id = ''Quiz1/Second'', alt_points = 5\<rparr>,
                              \<lparr>alt_id = ''Quiz1/Third'', alt_points = 5\<rparr>]\<rparr>]"
proof -
  let ?ds = "[Question \<lparr>alt_id = ''Quiz1/First'', alt_points = 2\<rparr>,
            Pool \<lparr>numberChoose = 1, wrapper_points = 5,
                  alternatives = [\<lparr>alt_id = ''Quiz1/Second'', alt_points = 5\<rparr>,
                                  \<lparr>alt_id = ''Quiz1/Third'', alt_points = 5\<rparr>]\<rparr>]"
  have run: "assemble example_env example_state example_questions = Inr ?ds"
    by (simp add: assemble_def example_defs assembler_defs zone_questions_def resolve_entry_def)
  have fresh: "pl_quiz_questions example_state = []"
    by (simp add: example_state_def)
  have closed: "\<forall>gid grp. st_groups example_state gid = Some grp \<longrightarrow> pl_alt grp = None"
    by (simp add: example_state_def example_group_def)
  have "?ds = assemble_spec (st_groups example_state)
      (confirmed example_env example_state example_questions)"
    by (rule group_wrappers_assembled [OF run fresh closed])
  with run fresh show ?thesis
    by (simp add: example_state_def example_group_def)
qed

theorem manual_grading_flag_witness:
  "\<exists>st'. handle_question example_env example_state (hd example_questions) = Inr st'
     \<and> st_stdin example_state = ''First'' # [''Second'', [], ''Third'']
     \<and> ''First'' \<noteq> []
     \<and> question_type (hd example_questions) = ''essay_question''
     \<and> st_files st' =
         [(''First'', ''info.json'',
           InfoJson [(''uuid'', JStr ''uuid-0''), (''type'', JStr ''v3''),
                     (''title'', JStr ''First''), (''topic'', JStr ''None''),
                     (''tags'', JList [JStr ''fromcanvas'']),
                     (''gradingMethod'', JStr ''Manual'')]),
          (''First'', ''question.html'', Emitted [])]"
proof -
  obtain st' where run: "handle_question example_env example_state (hd example_questions) = Inr st'"
    by (simp add: example_defs assembler_defs)
  have lines: "st_stdin example_state = ''First'' # [''Second'', [], ''Third'']"
    by (simp add: example_state_def)
  from manual_grading_flag [OF run lines]
  have "st_files st' =
         [(''First'', ''info.json'',
           InfoJson [(''uuid'', JStr ''uuid-0''), (''type'', JStr ''v3''),
                     (''title'', JStr ''First''), (''topic'', JStr ''None''),
                     (''tags'', JList [JStr ''fromcanvas'']),
                     (''gradingMethod'', JStr ''Manual'')]),
          (''First'', ''question.html'', Emitted [])]"
    using run
    by (auto simp: example_defs assembler_defs str_nat.simps digit_chars)
  with run lines show ?thesis
    by (auto simp: example_questions_def essay_1_def question0_def)
qed

section \<open>Properties of the reconciler\<close>

subsection \<open>The first loop\<close>


lemma map_of_dict_set: "map_of (dict_set kvs k v) = (map_of kvs)(k \<mapsto> v)"
  by (induction kvs) (auto simp: fun_eq_iff)

lemma keys_dict_set:
  "map fst (dict_set kvs k v) = (if k \<in> fst ` set kvs then map fst kvs else map fst kvs @ [k])"
  by (induction kvs) (fastforce simp: image_iff)+

lemma dict_set_same: "map_of kvs k = Some v \<Longrightarrow> dict_set kvs k v = kvs"
  by (induction kvs) (auto split: if_splits)

lemma fst_dict_set: "fst ` set (dict_set kvs k v) = insert k (fst ` set kvs)"
  using keys_dict_set [of kvs k v] by (metis (no_types, lifting) insert_absorb list.set_map set_append Un_insert_right sup_bot.right_neutral list.simps(15) empty_set)

lemma distinct_dict_set: "distinct (map fst kvs) \<Longrightarrow> distinct (map fst (dict_set kvs k v))"
  by (simp add: keys_dict_set)

lemma question_group_None [simp]: "question_group api None = Inr None"
  by (simp add: question_group_def truthy_group_id_def)

lemma reconcile_question_step:
  assumes "reconcile_question api (qs, gs, i) q = Inr (qs', gs', i')" and "cache_ok api gs"
  shows "qs' = dict_set qs (question_id q)
            (case resolved_group api q of
               Some grp \<Rightarrow> q\<lparr>points_possible := question_points grp, position := group_position grp\<rparr>
             | None \<Rightarrow> q\<lparr>position := i\<rparr>)"
    and "i' = (if resolved_group api q = None then i + 1 else i)"
    and "gs' = (case resolved_group api q of
                  None \<Rightarrow> gs
                | Some grp \<Rightarrow> (case quiz_group_id q of None \<Rightarrow> gs | Some gid \<Rightarrow> dict_set gs gid grp))"
proof -
  show "qs' = dict_set qs (question_id q)
            (case resolved_group api q of
               Some grp \<Rightarrow> q\<lparr>points_possible := question_points grp, position := group_position grp\<rparr>
             | None \<Rightarrow> q\<lparr>position := i\<rparr>)"
    using assms
    by (auto simp: reconcile_question_def resolved_group_def cache_ok_def
        split: option.splits sum.splits prod.splits)
  show "i' = (if resolved_group api q = None then i + 1 else i)"
    using assms
    by (auto simp: reconcile_question_def resolved_group_def cache_ok_def
        split: option.splits sum.splits prod.splits)
  show "gs' = (case resolved_group api q of
                  None \<Rightarrow> gs
                | Some grp \<Rightarrow> (case quiz_group_id q of None \<Rightarrow> gs | Some gid \<Rightarrow> dict_set gs gid grp))"
    using assms
    by (auto simp: reconcile_question_def resolved_group_def cache_ok_def dict_set_same
        split: option.splits sum.splits prod.splits)
qed


lemma reconcile_loop_append:
  "reconcile_loop api s (ws @ [q])
     = (case reconcile_loop api s ws of Inl e \<Rightarrow> Inl e | Inr s' \<Rightarrow> reconcile_question api s' q)"
  by (induction ws arbitrary: s) (auto split: sum.splits)

lemma resolved_group_cong:
  "quiz_group_id q = quiz_group_id q' \<Longrightarrow> resolved_group api q = resolved_group api q'"
  by (simp add: resolved_group_def)

lemma resolved_group_SomeD:
  "resolved_group api q = Some grp \<Longrightarrow> question_group api (quiz_group_id q) = Inr (Some grp)"
  by (auto simp: resolved_group_def split: sum.splits option.splits)

lemma pass1_inv_cache:
  assumes "pass1_inv api ws gs i"
  shows "cache_ok api gs"
  unfolding cache_ok_def
proof (intro allI impI)
  fix gid grp
  assume "map_of gs gid = Some grp"
  with assms obtain q where "quiz_group_id q = Some gid" and "resolved_group api q = Some grp"
    by (auto simp: pass1_inv_def)
  then show "question_group api (Some gid) = Inr (Some grp)"
    using resolved_group_SomeD [of api q grp] by simp
qed

lemma pass1_invariant:
  "reconcile_loop api ([], [], 1) ws = Inr (qs, gs, i) \<Longrightarrow> pass1_inv api ws gs i"
proof (induction ws arbitrary: qs gs i rule: rev_induct)
  case Nil
  then show ?case by (simp add: pass1_inv_def sequential_def)
next
  case (snoc q ws)
  from snoc.prems obtain qs0 gs0 i0 where
    before: "reconcile_loop api ([], [], 1) ws = Inr (qs0, gs0, i0)"
    and step: "reconcile_question api (qs0, gs0, i0) q = Inr (qs, gs, i)"
    by (auto simp: reconcile_loop_append split: sum.splits)
  from snoc.IH [OF before] have inv: "pass1_inv api ws gs0 i0" .
  note st = reconcile_question_step [OF step pass1_inv_cache [OF inv]]
  have i: "i = sequential api (ws @ [q])"
    using st(2) inv by (simp add: pass1_inv_def sequential_def)
  show ?case
  proof (cases "resolved_group api q")
    case None
    with st(3) have "gs = gs0" by simp
    with inv i None show ?thesis by (auto simp: pass1_inv_def)
  next
    case (Some grp)
    then obtain gid where gid: "quiz_group_id q = Some gid"
      by (cases "quiz_group_id q") (auto simp: resolved_group_def)
    with Some st(3) have gs: "gs = dict_set gs0 gid grp" by simp
    have same: "resolved_group api q' = Some grp" if "quiz_group_id q' = Some gid" for q'
      using that gid Some resolved_group_cong [of q' q api] by simp
    from inv have d: "distinct (map fst gs)"
      by (simp add: gs pass1_inv_def distinct_dict_set)
    have "(map_of gs g = Some x) \<longleftrightarrow>
           (\<exists>q'\<in>set (ws @ [q]). quiz_group_id q' = Some g \<and> resolved_group api q' = Some x)" for g x
      using inv gid Some same by (auto simp: gs map_of_dict_set pass1_inv_def)
    with i d show ?thesis by (simp add: pass1_inv_def)
  qed
qed


lemma shift_all_map: "shift_all gs qs = map (\<lambda>(k, q). (k, shifted gs q)) qs"
proof (induction gs arbitrary: qs)
  case Nil
  then show ?case by (simp add: shift_all_def shifted_def)
next
  case (Cons g gs)
  have "shift_all (g # gs) qs = shift_all gs (shift_for_group (snd g) qs)"
    by (cases g) (simp add: shift_all_def)
  also have "\<dots> = map (\<lambda>(k, q). (k, shifted gs q)) (shift_for_group (snd g) qs)"
    by (rule Cons.IH)
  also have "\<dots> = map (\<lambda>(k, q). (k, shifted (g # gs) q)) qs"
    by (cases g) (simp add: shift_for_group_def shifted_def case_prod_unfold)
  finally show ?case .
qed

lemma shifted_snoc: "shifted (gs @ [(gid, grp)]) q = shift_question grp (shifted gs q)"
  by (simp add: shifted_def)

lemma shift_question_group_id [simp]: "quiz_group_id (shift_question grp q) = quiz_group_id q"
  by (simp add: shift_question_def)

lemma shifted_group_id [simp]: "quiz_group_id (shifted gs q) = quiz_group_id q"
  by (induction gs rule: rev_induct) (auto simp: shifted_snoc shifted_def)

lemma shifted_grouped: "quiz_group_id q \<noteq> None \<Longrightarrow> shifted gs q = q"
proof (induction gs rule: rev_induct)
  case Nil
  then show ?case by (simp add: shifted_def)
next
  case (snoc g gs)
  then show ?case by (cases g) (simp add: shifted_snoc shift_question_def)
qed

lemma shifted_position_bounds:
  "position q \<le> position (shifted gs q) \<and> position (shifted gs q) \<le> position q + int (length gs)"
proof (induction gs rule: rev_induct)
  case Nil
  then show ?case by (simp add: shifted_def)
next
  case (snoc g gs)
  then show ?case by (cases g) (auto simp: shifted_snoc shift_question_def)
qed

lemma take_Suc_snoc: "j < length gs \<Longrightarrow> take (Suc j) gs = take j gs @ [gs ! j]"
  by (simp add: take_Suc_conv_app_nth)

lemma shift_pass:
  assumes "j < length gs" and "n < length qs"
  shows "snd (shift_all (take (Suc j) gs) qs ! n)
       = shift_question (snd (gs ! j)) (snd (shift_all (take j gs) qs ! n))"
proof -
  obtain gid grp where g: "gs ! j = (gid, grp)" by (cases "gs ! j")
  obtain k q where kq: "qs ! n = (k, q)" by (cases "qs ! n")
  from assms g kq show ?thesis
    by (simp add: shift_all_map take_Suc_snoc shifted_snoc)
qed

lemma shift_pass_adds_one:
  assumes "j < length gs" and "n < length qs"
    and "quiz_group_id (snd (qs ! n)) = None"
    and "group_position (snd (gs ! j)) \<le> position (snd (qs ! n))"
  shows "position (snd (shift_all (take (Suc j) gs) qs ! n))
       = position (snd (shift_all (take j gs) qs ! n)) + 1"
proof -
  obtain k q where kq: "qs ! n = (k, q)" by (cases "qs ! n")
  have before: "snd (shift_all (take j gs) qs ! n) = shifted (take j gs) q"
    using assms(2) kq by (simp add: shift_all_map)
  have "position q \<le> position (shifted (take j gs) q)"
    using shifted_position_bounds [of q "take j gs"] by simp
  with assms(3,4) kq have "group_position (snd (gs ! j)) \<le> position (shifted (take j gs) q)"
    and "quiz_group_id (shifted (take j gs) q) = None"
    by simp_all
  then show ?thesis
    unfolding shift_pass [OF assms(1,2)] before by (simp add: shift_question_def)
qed

lemma pass1_group_keys:
  assumes "pass1_inv api ws gs i"
  shows "fst ` set gs = {gid. \<exists>q\<in>set ws. quiz_group_id q = Some gid \<and> resolved_group api q \<noteq> None}"
proof (rule set_eqI)
  fix gid
  have "gid \<in> fst ` set gs \<longleftrightarrow> (\<exists>grp. map_of gs gid = Some grp)"
    by (metis domIff dom_map_of_conv_image_fst not_Some_eq)
  also have "\<dots> \<longleftrightarrow> (\<exists>grp. \<exists>q\<in>set ws. quiz_group_id q = Some gid \<and> resolved_group api q = Some grp)"
    using assms by (simp add: pass1_inv_def)
  also have "\<dots> \<longleftrightarrow> gid \<in> {gid. \<exists>q\<in>set ws. quiz_group_id q = Some gid \<and> resolved_group api q \<noteq> None}"
    by blast
  finally show "gid \<in> fst ` set gs \<longleftrightarrow>
      gid \<in> {gid. \<exists>q\<in>set ws. quiz_group_id q = Some gid \<and> resolved_group api q \<noteq> None}" .
qed

subsection \<open>One shift per group\<close>

text \<open>
  Claim C2: when the first loop has assigned the positions \<open>qs1\<close> and collected the groups
  \<open>gs1\<close>, the result of \<open>questions\<close> is the sorted outcome of one pass per entry of \<open>gs1\<close>.
  The keys of \<open>gs1\<close> are distinct and are exactly the group ids that a question refers to
  and that resolve, whatever the number of member questions. Pass \<open>j\<close> changes a question
  only through \<open>shift_question\<close>: an ungrouped question whose assigned position is at least
  the group's position gains exactly 1 in that pass, and a question with a group id is
  never moved.
\<close>

theorem shift_once_per_group:
  assumes "questions_pages api = Inr pages"
    and "reconcile_loop api ([], [], 1) (concat pages) = Inr (qs1, gs1, i1)"
  shows "quiz_questions api
           = Inr (sort_key (\<lambda>(k, q). position q) (shift_all gs1 qs1),
                  sort_key (\<lambda>(k, g). group_position g) gs1)
       \<and> distinct (map fst gs1)
       \<and> fst ` set gs1 = {gid. \<exists>q\<in>set (concat pages).
                               quiz_group_id q = Some gid \<and> resolved_group api q \<noteq> None}
       \<and> (\<forall>j<length gs1. \<forall>n<length qs1.
             snd (shift_all (take (Suc j) gs1) qs1 ! n)
               = shift_question (snd (gs1 ! j)) (snd (shift_all (take j gs1) qs1 ! n))
             \<and> (quiz_group_id (snd (qs1 ! n)) = None
                  \<and> group_position (snd (gs1 ! j)) \<le> position (snd (qs1 ! n))
                \<longrightarrow> position (snd (shift_all (take (Suc j) gs1) qs1 ! n))
                    = position (snd (shift_all (take j gs1) qs1 ! n)) + 1)
             \<and> (quiz_group_id (snd (qs1 ! n)) \<noteq> None
                \<longrightarrow> snd (shift_all (take (Suc j) gs1) qs1 ! n) = snd (qs1 ! n)))"
proof (intro conjI allI impI)
  show "quiz_questions api
           = Inr (sort_key (\<lambda>(k, q). position q) (shift_all gs1 qs1),
                  sort_key (\<lambda>(k, g). group_position g) gs1)"
    using assms by (simp add: quiz_questions_def)
  from pass1_invariant [OF assms(2)] have inv: "pass1_inv api (concat pages) gs1 i1" .
  then show "distinct (map fst gs1)" by (simp add: pass1_inv_def)
  from inv show "fst ` set gs1 = {gid. \<exists>q\<in>set (concat pages).
                               quiz_group_id q = Some gid \<and> resolved_group api q \<noteq> None}"
    by (rule pass1_group_keys)
next
  fix j n
  assume "j < length gs1" and "n < length qs1"
  then show "snd (shift_all (take (Suc j) gs1) qs1 ! n)
               = shift_question (snd (gs1 ! j)) (snd (shift_all (take j gs1) qs1 ! n))"
    by (rule shift_pass)
next
  fix j n
  assume "j < length gs1" and "n < length qs1"
    and "quiz_group_id (snd (qs1 ! n)) = None
         \<and> group_position (snd (gs1 ! j)) \<le> position (snd (qs1 ! n))"
  then show "position (snd (shift_all (take (Suc j) gs1) qs1 ! n))
                    = position (snd (shift_all (take j gs1) qs1 ! n)) + 1"
    by (intro shift_pass_adds_one) simp_all
next
  fix j n
  assume "j < length gs1" and n: "n < length qs1"
    and grouped: "quiz_group_id (snd (qs1 ! n)) \<noteq> None"
  obtain k q where kq: "qs1 ! n = (k, q)" by (cases "qs1 ! n")
  with n grouped show "snd (shift_all (take (Suc j) gs1) qs1 ! n) = snd (qs1 ! n)"
    by (simp add: shift_all_map shifted_grouped)
qed


theorem shift_once_per_group_witness:
  "questions_pages example_api = Inr [[essay_1, pooled_2], [plain_3, pooled_4]]
   \<and> reconcile_loop example_api ([], [], 1) (concat [[essay_1, pooled_2], [plain_3, pooled_4]])
       = Inr ([(1, essay_1\<lparr>position := 1\<rparr>),
               (2, pooled_2\<lparr>points_possible := 5, position := 2\<rparr>),
               (3, plain_3\<lparr>position := 2\<rparr>),
               (4, pooled_4\<lparr>points_possible := 5, position := 2\<rparr>)],
              [(7, example_group)], 3)
   \<and> quiz_questions example_api
       = Inr ([(1, essay_1\<lparr>position := 1\<rparr>),
               (2, pooled_2\<lparr>points_possible := 5, position := 2\<rparr>),
               (4, pooled_4\<lparr>points_possible := 5, position := 2\<rparr>),
               (3, plain_3\<lparr>position := 3\<rparr>)],
              [(7, example_group)])
   \<and> quiz_group_id (plain_3\<lparr>position := 2\<rparr>) = None
   \<and> group_position example_group \<le> position (plain_3\<lparr>position := 2\<rparr>)
   \<and> position (shift_question example_group (plain_3\<lparr>position := 2\<rparr>)) = 2 + 1
   \<and> quiz_group_id (pooled_4\<lparr>points_possible := 5, position := 2\<rparr>) \<noteq> None"
proof -
  let ?qs1 = "[(1, essay_1\<lparr>position := 1\<rparr>),
               (2, pooled_2\<lparr>points_possible := 5, position := 2\<rparr>),
               (3, plain_3\<lparr>position := 2\<rparr>),
               (4, pooled_4\<lparr>points_possible := 5, position := 2\<rparr>)]"
  have pages: "questions_pages example_api = Inr [[essay_1, pooled_2], [plain_3, pooled_4]]"
    by (simp add: example_api_def)
  have loop: "reconcile_loop example_api ([], [], 1)
        (concat [[essay_1, pooled_2], [plain_3, pooled_4]])
      = Inr (?qs1, [(7, example_group)], 3)"
    by (simp add: reconciler_defs example_api_def example_defs)
  note facts = shift_once_per_group [OF pages loop]
  from facts have out: "quiz_questions example_api
      = Inr (sort_key (\<lambda>(k, q). position q) (shift_all [(7, example_group)] ?qs1),
             sort_key (\<lambda>(k, g). group_position g) [(7, example_group)])"
    by (rule conjunct1)
  with pages loop out show ?thesis
    by (simp add: reconciler_defs example_defs)
qed

subsection \<open>Questions whose group is absent or empty\<close>

text \<open>
  Claim C8 says that a question whose group is absent or empty on the API does not make
  reconciliation raise and is treated as ungrouped, taking the next unused sequential
  position. The code does not do so. For a group the API does not have, the request is
  answered with status 404 and \<open>request\<close> raises before \<open>question_group\<close> can return
  \<open>None\<close>: \<open>questions\<close> ends with that error. For a group with an empty record the
  question gets the counter value, here 1, but keeps its group id, and the shift passes
  move only questions whose group id is \<open>None\<close>: the pass for group 7, at position 1,
  leaves it there, so that the question and the group share position 1 and position 2
  stays unused, whereas the same question served without a group id moves to position 2.
  The assembler then looks the group id up in the groups that resolved and raises
  \<open>KeyError\<close>.
\<close>

theorem absent_group_not_ungrouped:
  "quiz_questions missing_group_api = Inl HTTPError
   \<and> quiz_questions empty_group_api
       = Inr ([(5, orphan_5\<lparr>position := 1\<rparr>),
               (2, pooled_2\<lparr>points_possible := 5, position := 1\<rparr>),
               (3, plain_3\<lparr>position := 3\<rparr>)],
              [(7, first_group)])
   \<and> quiz_questions ungrouped_api
       = Inr ([(2, pooled_2\<lparr>points_possible := 5, position := 1\<rparr>),
               (5, orphan_5\<lparr>quiz_group_id := None, position := 2\<rparr>),
               (3, plain_3\<lparr>position := 3\<rparr>)],
              [(7, first_group)])
   \<and> handle_question example_env
         (example_state\<lparr>st_groups := map_of [(7, first_group)]\<rparr>) (orphan_5\<lparr>position := 1\<rparr>)
       = Inl KeyError"
proof -
  have "quiz_questions missing_group_api = Inl HTTPError"
    by (simp add: reconciler_defs orphan_defs example_defs)
  moreover have "quiz_questions empty_group_api
       = Inr ([(5, orphan_5\<lparr>position := 1\<rparr>),
               (2, pooled_2\<lparr>points_possible := 5, position := 1\<rparr>),
               (3, plain_3\<lparr>position := 3\<rparr>)],
              [(7, first_group)])"
    by (simp add: reconciler_defs orphan_defs two_group_defs example_defs)
  moreover have "quiz_questions ungrouped_api
       = Inr ([(2, pooled_2\<lparr>points_possible := 5, position := 1\<rparr>),
               (5, orphan_5\<lparr>quiz_group_id := None, position := 2\<rparr>),
               (3, plain_3\<lparr>position := 3\<rparr>)],
              [(7, first_group)])"
    by (simp add: reconciler_defs orphan_defs two_group_defs example_defs)
  moreover have "handle_question example_env
         (example_state\<lparr>st_groups := map_of [(7, first_group)]\<rparr>) (orphan_5\<lparr>position := 1\<rparr>)
       = Inl KeyError"
    by (simp add: assembler_defs orphan_defs example_defs)
  ultimately show ?thesis by simp
qed

subsection \<open>The questions after the first loop\<close>






subsection \<open>The positions of the result\<close>









lemma annotated_group_id [simp]: "quiz_group_id (annotated api before q) = quiz_group_id q"
  by (simp add: annotated_def split: option.splits)













text \<open>
  The other three conditions of the permutation are needed as well. With the group at
  position 3 and one ungrouped question the two items are at 1 and 3; of two questions
  with the same id the later one replaces the earlier one and keeps position 2; and a
  question whose group id does not resolve is no item but takes a value of the counter,
  which leaves the items of \<open>empty_group_api\<close> at 3 and 1.
\<close>

lemma permutation_needs_conditions:
  "map_sum id item_positions (quiz_questions gap_api) = Inr [1, 3]
   \<and> map_sum id item_positions (quiz_questions duplicate_api) = Inr [2]
   \<and> map_sum id item_positions (quiz_questions empty_group_api) = Inr [3, 1]"
  by (simp add: reconciler_defs two_group_defs orphan_defs example_defs item_positions_def)

section \<open>Properties of the sanitizer\<close>

lemma length_deleted_marks [simp]: "length (deleted_marks m s) = length s"
  by (induction m s rule: deleted_marks.induct) (auto split: option.splits nat.splits)












end
